theory Spec2Isabelle
  imports Main "HOL-Library.AList"
begin

section \<open>Python values, exceptions and the store of list objects\<close>

text \<open>
  The attributes of a \<open>Node\<close> hold arbitrary Python values. A Python list is an object
  with an identity: two attributes may refer to the same list, and \<open>append\<close> changes it
  for both. Lists are therefore references into a store; the other values are immutable
  and are kept by value. A bound method of the node (\<open>dir\<close> lists them and
  \<open>get_context\<close> harvests them) is represented by its name.
\<close>

datatype pyval =
    PyNone
  | PyBool bool
  | PyInt int
  | PyStr string
  | PyDict "(string \<times> pyval) list"
  | PyListRef nat
  | PyMethod string

type_synonym store = "nat \<Rightarrow> pyval list"

text \<open>
  The exception classes of \<open>yota.exceptions\<close> are only imported by the two modules;
  they are plain exception classes, and each is a constructor here, next to the builtin
  exceptions that the code raises or that a collaborator may raise.
\<close>

datatype exn =
    ValueError string
  | TypeError string
  | AttributeError string
  | KeyError string
  | InvalidContextException string
  | FormDataAccessException
  | NotCallableException string
  | OtherError string

section \<open>Strings\<close>

text \<open>\<open>s.startswith(p)\<close>.\<close>

definition startswith :: "string \<Rightarrow> string \<Rightarrow> bool" where
  "startswith s p = (take (length p) s = p)"

text \<open>
  \<open>str.capitalize\<close> on a byte string: the first character in upper case, the others in
  lower case; only the ASCII letters have a case.
\<close>

definition upper :: "char \<Rightarrow> char" where
  "upper c = (let k = (of_char c :: nat) in if 97 \<le> k \<and> k \<le> 122 then char_of (k - 32) else c)"

definition lower :: "char \<Rightarrow> char" where
  "lower c = (let k = (of_char c :: nat) in if 65 \<le> k \<and> k \<le> 90 then char_of (k + 32) else c)"

fun capitalize :: "string \<Rightarrow> string" where
  "capitalize [] = []"
| "capitalize (c # cs) = upper c # map lower cs"

section \<open>Nodes\<close>

datatype node_class =
  Node | BaseNode | ListNode | ButtonNode | EntryNode | TextareaNode | SubmitNode | LeaderNode

text \<open>
  The class-level list \<open>Node.errors = []\<close> is one list object, created once when the class
  body runs; no subclass rebinds \<open>errors\<close>. It lives at a fixed address of the store.
\<close>

definition Node_errors :: nat where
  "Node_errors = 0"

text \<open>
  A node is its class together with its instance attributes. The three private attributes
  that the methods read are typed fields holding the value that \<open>self._attr_name\<close>,
  \<open>self._ignores\<close> and \<open>self._requires\<close> evaluate to; \<open>inst_dict\<close> is the rest of the instance
  \<open>__dict__\<close>, in particular every keyword argument of \<open>__init__\<close>.
\<close>

record node =
  node_class :: node_class
  create_counter :: nat
  attr_name :: "string option"
  ignores :: "string list"
  requires :: "string list"
  inst_dict :: "(string \<times> pyval) list"

text \<open>The names every new-style class inherits from \<open>object\<close> (Python 2.7).\<close>

definition object_names :: "string list" where
  "object_names =
     [''__class__'', ''__delattr__'', ''__dict__'', ''__doc__'', ''__format__'',
      ''__getattribute__'', ''__hash__'', ''__init__'', ''__module__'', ''__new__'',
      ''__reduce__'', ''__reduce_ex__'', ''__repr__'', ''__setattr__'', ''__sizeof__'',
      ''__str__'', ''__subclasshook__'', ''__weakref__'']"

text \<open>
  The public attributes of the class bodies, the most derived class first, as attribute
  lookup goes through the method resolution order.
\<close>

definition Node_attrs :: "(string \<times> pyval) list" where
  "Node_attrs =
     [(''template'', PyNone), (''errors'', PyListRef Node_errors), (''data'', PyStr []),
      (''validator'', PyNone), (''label'', PyBool True),
      (''add_error'', PyMethod ''add_error''),
      (''set_identifiers'', PyMethod ''set_identifiers''),
      (''resolve_data'', PyMethod ''resolve_data''),
      (''get_context'', PyMethod ''get_context'')]"

definition BaseNode_attrs :: "(string \<times> pyval) list" where
  "BaseNode_attrs =
     [(''base'', PyStr ''horiz.html''), (''css_class'', PyStr []), (''css_style'', PyStr [])]
     @ Node_attrs"

fun class_attrs :: "node_class \<Rightarrow> (string \<times> pyval) list" where
  "class_attrs Node = Node_attrs"
| "class_attrs BaseNode = BaseNode_attrs"
| "class_attrs ListNode = (''template'', PyStr ''list'') # BaseNode_attrs"
| "class_attrs ButtonNode = (''template'', PyStr ''button'') # BaseNode_attrs"
| "class_attrs EntryNode = (''template'', PyStr ''entry'') # BaseNode_attrs"
| "class_attrs TextareaNode =
     [(''template'', PyStr ''textarea''), (''rows'', PyStr ''5''), (''columns'', PyStr ''10'')]
     @ BaseNode_attrs"
| "class_attrs SubmitNode = (''template'', PyStr ''submit'') # BaseNode_attrs"
| "class_attrs LeaderNode = Node_attrs"

text \<open>The private names of the class bodies; \<open>dir\<close> lists them too.\<close>

definition private_names :: "string list" where
  "private_names = [''_create_counter'', ''_requires'', ''_ignores'', ''_attr_name'']"

fun class_requires :: "node_class \<Rightarrow> string list" where
  "class_requires ListNode = [''items'']"
| "class_requires c = []"

text \<open>
  \<open>getattr\<close>, \<open>hasattr\<close>, \<open>setattr\<close> and \<open>dir\<close> on a node: the instance dictionary first,
  then the classes. \<open>dir\<close> returns each name once (Python sorts the names; the order
  does not matter to the dictionary built from them).
\<close>

definition getattr :: "node \<Rightarrow> string \<Rightarrow> pyval option" where
  "getattr self k = map_of (inst_dict self @ class_attrs (node_class self)) k"

definition hasattr :: "node \<Rightarrow> string \<Rightarrow> bool" where
  "hasattr self k = (getattr self k \<noteq> None)"

definition setattr :: "node \<Rightarrow> string \<Rightarrow> pyval \<Rightarrow> node" where
  "setattr self k v = self\<lparr>inst_dict := AList.update k v (inst_dict self)\<rparr>"

definition dir :: "node \<Rightarrow> string list" where
  "dir self =
     remdups (map fst (inst_dict self) @ map fst (class_attrs (node_class self))
              @ private_names @ object_names)"

text \<open>
  \<open>Node.__init__(**kwargs)\<close>: the node takes the current value of the class-wide counter,
  the counter is incremented, and the keyword arguments become instance attributes. The
  private attributes start with their class-level values.
\<close>

definition Node_init :: "node_class \<Rightarrow> (string \<times> pyval) list \<Rightarrow> nat \<Rightarrow> node \<times> nat" where
  "Node_init c kwargs counter =
     (\<lparr>node_class = c, create_counter = counter, attr_name = None,
       ignores = [''template'', ''validator''], requires = class_requires c,
       inst_dict = kwargs\<rparr>, counter + 1)"

subsection \<open>\<open>add_error\<close>\<close>

text \<open>
  \<open>self.errors.append(error)\<close>: the attribute is looked up on the instance, then on the
  class, and the list object it refers to is extended in the store. A value that is not
  a list has no \<open>append\<close>.
\<close>

definition add_error :: "pyval \<Rightarrow> node \<Rightarrow> store \<Rightarrow> exn + store" where
  "add_error error self h =
     (case getattr self ''errors'' of
        None \<Rightarrow> Inl (AttributeError ''errors'')
      | Some (PyListRef a) \<Rightarrow> Inr (h(a := h a @ [error]))
      | Some _ \<Rightarrow> Inl (AttributeError ''append''))"

text \<open>The errors sequence a node shows: the list its \<open>errors\<close> attribute refers to.\<close>

definition errors_of :: "store \<Rightarrow> node \<Rightarrow> pyval list option" where
  "errors_of h self =
     (case getattr self ''errors'' of Some (PyListRef a) \<Rightarrow> Some (h a) | _ \<Rightarrow> None)"

subsection \<open>\<open>set_identifiers\<close>\<close>

text \<open>
  The three assignments run in order; the last one calls \<open>capitalize\<close> on \<open>_attr_name\<close>,
  which raises when it is still \<open>None\<close>, after the first two have taken effect. The
  result is the exception, if any, and the node as the call leaves it.
  \<open>"{}_{}".format\<close> prints \<open>None\<close> as \<open>None\<close>.
\<close>

definition Node_set_identifiers :: "string \<Rightarrow> node \<Rightarrow> exn option \<times> node" where
  "Node_set_identifiers parent_name self =
     (let self1 = (if \<not> hasattr self ''id''
                   then setattr self ''id''
                          (PyStr (parent_name @ ''_'' @
                                  (case attr_name self of None \<Rightarrow> ''None'' | Some a \<Rightarrow> a)))
                   else self);
          self2 = (if \<not> hasattr self1 ''name''
                   then setattr self1 ''name''
                          (case attr_name self1 of None \<Rightarrow> PyNone | Some a \<Rightarrow> PyStr a)
                   else self1)
      in if \<not> hasattr self2 ''title''
         then (case attr_name self2 of
                 None \<Rightarrow> (Some (AttributeError ''capitalize''), self2)
               | Some a \<Rightarrow> (None, setattr self2 ''title'' (PyStr (capitalize a))))
         else (None, self2))"

text \<open>
  \<open>LeaderNode.set_identifiers\<close>: the base method, then \<open>delattr(self, 'title')\<close>, which
  removes an instance attribute and raises when the instance has none of that name.
\<close>

definition LeaderNode_set_identifiers :: "string \<Rightarrow> node \<Rightarrow> exn option \<times> node" where
  "LeaderNode_set_identifiers parent_name self =
     (case Node_set_identifiers parent_name self of
        (Some e, self') \<Rightarrow> (Some e, self')
      | (None, self') \<Rightarrow>
          if ''title'' \<in> fst ` set (inst_dict self')
          then (None, self'\<lparr>inst_dict := AList.delete ''title'' (inst_dict self')\<rparr>)
          else (Some (AttributeError ''title''), self'))"

text \<open>The method a call \<open>node.set_identifiers(parent_name)\<close> reaches.\<close>

definition set_identifiers :: "string \<Rightarrow> node \<Rightarrow> exn option \<times> node" where
  "set_identifiers parent_name self =
     (if node_class self = LeaderNode then LeaderNode_set_identifiers parent_name self
      else Node_set_identifiers parent_name self)"

subsection \<open>\<open>resolve_data\<close>\<close>

text \<open>
  \<open>data[self.name]\<close> inside a bare \<open>except\<close>: a node without a \<open>name\<close>, a name that is
  not a string and hence no key of the submission, and a missing key all end in
  \<open>FormDataAccessException\<close>.
\<close>

definition resolve_data :: "(string \<rightharpoonup> pyval) \<Rightarrow> node \<Rightarrow> exn + node" where
  "resolve_data data self =
     (case getattr self ''name'' of
        Some (PyStr nm) \<Rightarrow>
          (case data nm of
             Some v \<Rightarrow> Inr (setattr self ''data'' v)
           | None \<Rightarrow> Inl FormDataAccessException)
      | _ \<Rightarrow> Inl FormDataAccessException)"

subsection \<open>\<open>get_context\<close>\<close>

text \<open>
  The dictionary comprehension over \<open>dir(self)\<close>, the loop over \<open>_requires\<close> that raises
  at the first name missing from the dictionary, and the assignment of the global context
  to the key \<open>g\<close>.
\<close>

definition harvest :: "node \<Rightarrow> (string \<times> pyval) list" where
  "harvest self =
     concat (map (\<lambda>i. case getattr self i of Some v \<Rightarrow> [(i, v)] | None \<Rightarrow> [])
                 (filter (\<lambda>i. \<not> startswith i ''_'' \<and> i \<notin> set (ignores self)) (dir self)))"

definition get_context :: "pyval \<Rightarrow> node \<Rightarrow> exn + (string \<rightharpoonup> pyval)" where
  "get_context g_context self =
     (let d = map_of (harvest self)
      in case find (\<lambda>r. d r = None) (requires self) of
           Some r \<Rightarrow>
             Inl (InvalidContextException
                    (''Missing required context value '' @ [CHR 0x27] @ r @ [CHR 0x27]))
         | None \<Rightarrow> Inr (d(''g'' \<mapsto> g_context)))"

section \<open>Bindings: \<open>ActionWrapper\<close>, \<open>Check\<close> and \<open>Listener\<close>\<close>

text \<open>
  A stored reference is the name given at construction or, after resolution, the field
  object the form returned for it.
\<close>

datatype ref = Name string | Field node

text \<open>
  What a call \<open>self.callable(*self.args, **self.kwargs)\<close> can do: return a value, raise
  from inside the body of the callable, or fail before any body runs because the object is
  not callable or does not accept these arguments (Python raises \<open>TypeError\<close> then). The
  callable may change the store on the way, as validators do through \<open>add_error\<close>.
\<close>

datatype call_result = Returns pyval | BodyRaises exn | CannotInvoke string

type_synonym validator =
  "ref list \<Rightarrow> (string \<times> ref) list \<Rightarrow> store \<Rightarrow> call_result \<times> store"

text \<open>
  The attributes \<open>ActionWrapper.__init__\<close> sets. \<open>Check\<close> adds methods only;
  \<open>Listener\<close> adds the attribute \<open>type\<close>. The methods of \<open>ActionWrapper\<close> are
  inherited unchanged by both, so they are defined once, on every extension of the record.
  \<open>Listener.__init__\<close>, as the sources have it, assigns \<open>type\<close> and nothing else; the
  record describes a binding on which \<open>ActionWrapper.__init__\<close> has run.
\<close>

record action_wrapper =
  callable :: validator
  args :: "ref list"
  kwargs :: "(string \<times> ref) list"
  wrapper_attr_name :: "string option"
  resolved :: bool

record listener = action_wrapper +
  listener_type :: string

definition ActionWrapper_init ::
  "validator \<Rightarrow> string list \<Rightarrow> (string \<times> string) list \<Rightarrow> action_wrapper" where
  "ActionWrapper_init c as kws =
     \<lparr>callable = c, args = map Name as, kwargs = map (\<lambda>(k, v). (k, Name v)) kws,
      wrapper_attr_name = None, resolved = False\<rparr>"

subsection \<open>\<open>resolve_attr_names\<close>\<close>

text \<open>
  The form is not part of the sources; \<open>form.get_by_attr\<close> is a parameter: it returns a
  field object or raises. The two loops replace the stored references one by one, in
  place, so a lookup that raises leaves the earlier references replaced and \<open>resolved\<close>
  false.
\<close>

fun resolve_args :: "(ref \<Rightarrow> exn + node) \<Rightarrow> ref list \<Rightarrow> exn option \<times> ref list" where
  "resolve_args get_by_attr [] = (None, [])"
| "resolve_args get_by_attr (arg # rest) =
     (case get_by_attr arg of
        Inl e \<Rightarrow> (Some e, arg # rest)
      | Inr n \<Rightarrow> (case resolve_args get_by_attr rest of (r, rest') \<Rightarrow> (r, Field n # rest')))"

fun resolve_kwargs ::
  "(ref \<Rightarrow> exn + node) \<Rightarrow> (string \<times> ref) list \<Rightarrow> exn option \<times> (string \<times> ref) list" where
  "resolve_kwargs get_by_attr [] = (None, [])"
| "resolve_kwargs get_by_attr ((key, val) # rest) =
     (case get_by_attr val of
        Inl e \<Rightarrow> (Some e, (key, val) # rest)
      | Inr n \<Rightarrow>
          (case resolve_kwargs get_by_attr rest of (r, rest') \<Rightarrow> (r, (key, Field n) # rest')))"

definition resolve_attr_names ::
  "(ref \<Rightarrow> exn + node) \<Rightarrow> 'z action_wrapper_scheme \<Rightarrow> exn option \<times> 'z action_wrapper_scheme"
  where
  "resolve_attr_names get_by_attr self =
     (if resolved self then (None, self)
      else case resolve_args get_by_attr (args self) of
             (Some e, as) \<Rightarrow> (Some e, self\<lparr>args := as\<rparr>)
           | (None, as) \<Rightarrow>
               (case resolve_kwargs get_by_attr (kwargs self) of
                  (Some e, kws) \<Rightarrow> (Some e, self\<lparr>args := as, kwargs := kws\<rparr>)
                | (None, kws) \<Rightarrow> (None, self\<lparr>args := as, kwargs := kws, resolved := True\<rparr>)))"

subsection \<open>\<open>__call__\<close>\<close>

definition not_resolved :: exn where
  "not_resolved = ValueError ''Check args are not resolved. This should not happen''"

text \<open>
  In the source, \<open>.format\<close> applies to the second string literal only, so the first keeps
  its placeholder and the text of the caught exception follows the second.
\<close>

definition not_callable :: "string \<Rightarrow> exn" where
  "not_callable cause =
     NotCallableException
       (''Validators provided must be callable, type '' @ [CHR 0x27] @ ''{0}'' @ [CHR 0x27]
        @ ''instead. Caused by '' @ cause)"

text \<open>
  \<open>except TypeError\<close> selects by the class of the exception, wherever it was raised:
  a \<open>TypeError\<close> from the body of the callable is caught like one from the call itself.
  Every other exception passes through the \<open>try\<close> statement.
\<close>

fun except_TypeError :: "call_result \<Rightarrow> exn + pyval" where
  "except_TypeError (Returns v) = Inr v"
| "except_TypeError (CannotInvoke m) = Inl (not_callable m)"
| "except_TypeError (BodyRaises (TypeError m)) = Inl (not_callable m)"
| "except_TypeError (BodyRaises e) = Inl e"

definition call :: "'z action_wrapper_scheme \<Rightarrow> store \<Rightarrow> (exn + pyval) \<times> store" where
  "call self h =
     (if \<not> resolved self then (Inl not_resolved, h)
      else case callable self (args self) (kwargs self) h of
             (r, h') \<Rightarrow> (except_TypeError r, h'))"

subsection \<open>\<open>Check.node_visited\<close>\<close>

text \<open>
  \<open>get_list_names\<close> is not a method of any class in the sources; what a referenced object
  answers to it is a parameter, an exception where the object has no such method. A
  reference that is still a name is a string, which has none.
\<close>

definition ref_names :: "(node \<Rightarrow> exn + string list) \<Rightarrow> ref \<Rightarrow> exn + string list" where
  "ref_names get_list_names r =
     (case r of Name s \<Rightarrow> Inl (AttributeError ''get_list_names'') | Field n \<Rightarrow> get_list_names n)"

text \<open>The inner \<open>for\<close> with its \<open>break\<close>: true when the loop was left by \<open>break\<close>.\<close>

fun name_found :: "string set \<Rightarrow> string list \<Rightarrow> bool" where
  "name_found visited [] = False"
| "name_found visited (name # rest) = (if name \<in> visited then True else name_found visited rest)"

text \<open>
  The outer \<open>for\<close>: \<open>Inr False\<close> is the \<open>return False\<close> of the \<open>else\<close> branch, \<open>Inr True\<close>
  the loop running to its end.
\<close>

fun nodes_visited ::
  "(node \<Rightarrow> exn + string list) \<Rightarrow> string set \<Rightarrow> ref list \<Rightarrow> exn + bool" where
  "nodes_visited get_list_names visited [] = Inr True"
| "nodes_visited get_list_names visited (r # rest) =
     (case ref_names get_list_names r of
        Inl e \<Rightarrow> Inl e
      | Inr names \<Rightarrow>
          if name_found visited names then nodes_visited get_list_names visited rest
          else Inr False)"

text \<open>
  The method reads the binding and returns it as it found it: it has no assignment.
\<close>

definition node_visited ::
  "(node \<Rightarrow> exn + string list) \<Rightarrow> string set \<Rightarrow> action_wrapper
     \<Rightarrow> (exn + bool) \<times> action_wrapper" where
  "node_visited get_list_names visited self =
     (if \<not> resolved self then (Inl not_resolved, self)
      else case nodes_visited get_list_names visited (args self) of
             Inl e \<Rightarrow> (Inl e, self)
           | Inr False \<Rightarrow> (Inr False, self)
           | Inr True \<Rightarrow> (nodes_visited get_list_names visited (map snd (kwargs self)), self))"

section \<open>A validator of the sources: \<open>Required\<close>\<close>

text \<open>
  \<open>len(x)\<close>: strings, dictionaries and lists have a length, the other values raise
  \<open>TypeError\<close>.
\<close>

fun type_name :: "pyval \<Rightarrow> string" where
  "type_name PyNone = ''NoneType''"
| "type_name (PyBool b) = ''bool''"
| "type_name (PyInt i) = ''int''"
| "type_name (PyStr s) = ''str''"
| "type_name (PyDict d) = ''dict''"
| "type_name (PyListRef a) = ''list''"
| "type_name (PyMethod m) = ''instancemethod''"

fun py_len :: "store \<Rightarrow> pyval \<Rightarrow> exn + nat" where
  "py_len h (PyStr s) = Inr (length s)"
| "py_len h (PyDict d) = Inr (length d)"
| "py_len h (PyListRef a) = Inr (length (h a))"
| "py_len h v =
     Inl (TypeError (''object of type '' @ [CHR 0x27] @ type_name v @ [CHR 0x27] @ '' has no len()''))"

text \<open>
  The body of \<open>Required.__call__(self, target=None)\<close>:
  \<open>if len(target.data) == 0: target.add_error({'message': self.message})\<close>.
  Without a target, \<open>None\<close> has no attribute \<open>data\<close>; neither has a string.
\<close>

definition Required_body :: "string \<Rightarrow> ref option \<Rightarrow> store \<Rightarrow> call_result \<times> store" where
  "Required_body message target h =
     (case target of
        None \<Rightarrow> (BodyRaises (AttributeError ''data''), h)
      | Some (Name s) \<Rightarrow> (BodyRaises (AttributeError ''data''), h)
      | Some (Field n) \<Rightarrow>
          (case getattr n ''data'' of
             None \<Rightarrow> (BodyRaises (AttributeError ''data''), h)
           | Some v \<Rightarrow>
               (case py_len h v of
                  Inl e \<Rightarrow> (BodyRaises e, h)
                | Inr l \<Rightarrow>
                    if l = 0
                    then (case add_error (PyDict [(''message'', PyStr message)]) n h of
                            Inl e \<Rightarrow> (BodyRaises e, h)
                          | Inr h' \<Rightarrow> (Returns PyNone, h'))
                    else (Returns PyNone, h))))"

text \<open>
  Binding the arguments of the call to the one parameter \<open>target\<close>: at most one
  positional argument, no keyword but \<open>target\<close>, and not both.
\<close>

definition Required_call :: "string \<Rightarrow> validator" where
  "Required_call message as kws h =
     (if length as > 1 then (CannotInvoke ''__call__() takes at most 2 arguments'', h)
      else if \<exists>k \<in> fst ` set kws. k \<noteq> ''target''
      then (CannotInvoke ''__call__() got an unexpected keyword argument'', h)
      else if as \<noteq> [] \<and> kws \<noteq> []
      then (CannotInvoke ''__call__() got multiple values for keyword argument'', h)
      else Required_body message
             (case as of t # _ \<Rightarrow> Some t | [] \<Rightarrow> map_of kws ''target'') h)"

section \<open>Reading the results\<close>

text \<open>The value under a key of the context a call of \<open>get_context\<close> returned, if it returned.\<close>

definition returned_key :: "exn + (string \<rightharpoonup> pyval) \<Rightarrow> string \<Rightarrow> pyval option" where
  "returned_key r k = (case r of Inl e \<Rightarrow> None | Inr d \<Rightarrow> d k)"

text \<open>The store before any list was appended to: every list object is empty.\<close>

definition initial_store :: store where
  "initial_store = (\<lambda>a. [])"

section \<open>Attribute lookup\<close>

lemmas node_eval = getattr_def Node_init_def Node_attrs_def BaseNode_attrs_def

lemma class_no_identifiers:
  "map_of (class_attrs c) ''id'' = None"
  "map_of (class_attrs c) ''name'' = None"
  "map_of (class_attrs c) ''title'' = None"
  by (cases c; simp add: Node_attrs_def BaseNode_attrs_def)+

lemma getattr_inst:
  "getattr self k =
     (case map_of (inst_dict self) k of
        Some v \<Rightarrow> Some v
      | None \<Rightarrow> map_of (class_attrs (node_class self)) k)"
  by (simp add: getattr_def map_add_def split: option.splits)

lemma getattr_setattr:
  "getattr (setattr self k v) k' = (if k' = k then Some v else getattr self k')"
  by (simp add: getattr_def setattr_def update_conv' map_add_def)

lemma setattr_fields [simp]:
  "node_class (setattr self k v) = node_class self"
  "attr_name (setattr self k v) = attr_name self"
  "ignores (setattr self k v) = ignores self"
  "requires (setattr self k v) = requires self"
  by (simp_all add: setattr_def)

lemma hasattr_identifier:
  "k \<in> {''id'', ''name'', ''title''} \<Longrightarrow> hasattr self k = (map_of (inst_dict self) k \<noteq> None)"
  by (auto simp: hasattr_def getattr_inst class_no_identifiers split: option.splits)

lemma inst_setattr:
  "map_of (inst_dict (setattr self k v)) k' =
     (if k' = k then Some v else map_of (inst_dict self) k')"
  by (simp add: setattr_def update_conv')

lemma getattr_identifier:
  "k \<in> {''id'', ''name'', ''title''} \<Longrightarrow> getattr self k = map_of (inst_dict self) k"
  by (auto simp: getattr_inst class_no_identifiers split: option.splits)

lemma getattr_in_dir:
  assumes "getattr self k = Some v"
  shows "k \<in> set (dir self)"
proof -
  from assms have "(k, v) \<in> set (inst_dict self @ class_attrs (node_class self))"
    unfolding getattr_def by (rule map_of_SomeD)
  then have "k \<in> fst ` set (inst_dict self @ class_attrs (node_class self))"
    by (rule rev_image_eqI) simp
  then show ?thesis by (auto simp: dir_def image_Un)
qed

section \<open>Errors of a node\<close>

text \<open>
  What \<open>add_error\<close> does in general: the list the node's \<open>errors\<close> attribute refers to
  gets the record at its end, and every other list object is as before. A second node
  keeps its errors exactly when its attribute refers to another list.
\<close>

lemma add_error_appends:
  assumes "getattr self ''errors'' = Some (PyListRef a)"
  shows "add_error error self h = Inr (h(a := h a @ [error]))"
    and "errors_of (h(a := h a @ [error])) self = Some (h a @ [error])"
    and "getattr other ''errors'' = Some (PyListRef b) \<Longrightarrow> b \<noteq> a \<Longrightarrow>
         errors_of (h(a := h a @ [error])) other = errors_of h other"
  using assms by (simp_all add: add_error_def errors_of_def)

text \<open>
  C2. The claim: \<open>add_error\<close> appends the record to the field's own errors sequence and
  leaves the errors sequence of every other field unchanged. Two nodes constructed
  without an \<open>errors\<close> argument both read the class-level list \<open>Node.errors\<close>: the second
  node shows no error before the call, and after one \<open>add_error\<close> on the first node it shows
  the record that was given to the first.
\<close>

theorem add_error_shared_class_list:
  "errors_of initial_store (fst (Node_init Node [] 1)) = Some []
   \<and> add_error (PyDict [(''message'', PyStr ''A value is required'')])
        (fst (Node_init Node [] 0)) initial_store
       = Inr (initial_store(Node_errors := [PyDict [(''message'', PyStr ''A value is required'')]]))
   \<and> errors_of (initial_store(Node_errors := [PyDict [(''message'', PyStr ''A value is required'')]]))
        (fst (Node_init Node [] 1))
       = Some [PyDict [(''message'', PyStr ''A value is required'')]]"
  by (simp add: errors_of_def add_error_def node_eval initial_store_def)

section \<open>Identifiers\<close>

text \<open>
  The base method \<open>Node.set_identifiers\<close> on a node whose \<open>_attr_name\<close> is the string
  \<open>n\<close>: it returns normally; afterwards \<open>id\<close>, \<open>name\<close> and \<open>title\<close> hold the value given
  at construction where there was one, and otherwise \<open>p_n\<close>, \<open>n\<close> and \<open>n\<close> capitalized.
\<close>

lemma Node_set_identifiers_defaults:
  assumes "attr_name self = Some n"
  shows "\<exists>self'. Node_set_identifiers p self = (None, self') \<and>
     getattr self' ''id'' =
       Some (case map_of (inst_dict self) ''id'' of Some v \<Rightarrow> v | None \<Rightarrow> PyStr (p @ ''_'' @ n)) \<and>
     getattr self' ''name'' =
       Some (case map_of (inst_dict self) ''name'' of Some v \<Rightarrow> v | None \<Rightarrow> PyStr n) \<and>
     getattr self' ''title'' =
       Some (case map_of (inst_dict self) ''title'' of Some v \<Rightarrow> v | None \<Rightarrow> PyStr (capitalize n))"
proof -
  define self1 where
    "self1 = (if \<not> hasattr self ''id'' then setattr self ''id'' (PyStr (p @ ''_'' @ n)) else self)"
  define self2 where
    "self2 = (if \<not> hasattr self1 ''name'' then setattr self1 ''name'' (PyStr n) else self1)"
  define self3 where
    "self3 = (if \<not> hasattr self2 ''title''
              then setattr self2 ''title'' (PyStr (capitalize n)) else self2)"
  have a1: "attr_name self1 = Some n" using assms by (simp add: self1_def)
  have a2: "attr_name self2 = Some n" using a1 by (simp add: self2_def)
  have e1: "(if \<not> hasattr self ''id''
             then setattr self ''id''
                    (PyStr (p @ ''_'' @ (case attr_name self of None \<Rightarrow> ''None'' | Some a \<Rightarrow> a)))
             else self) = self1"
    by (simp add: self1_def assms)
  have e2: "(if \<not> hasattr self1 ''name''
             then setattr self1 ''name''
                    (case attr_name self1 of None \<Rightarrow> PyNone | Some a \<Rightarrow> PyStr a)
             else self1) = self2"
    by (simp add: self2_def a1)
  have "Node_set_identifiers p self =
          (if \<not> hasattr self2 ''title''
           then (case attr_name self2 of
                   None \<Rightarrow> (Some (AttributeError ''capitalize''), self2)
                 | Some a \<Rightarrow> (None, setattr self2 ''title'' (PyStr (capitalize a))))
           else (None, self2))"
    by (simp only: Node_set_identifiers_def Let_def e1 e2)
  then have run: "Node_set_identifiers p self = (None, self3)"
    by (simp add: a2 self3_def)
  have i1: "map_of (inst_dict self1) k =
      (if k = ''id'' \<and> map_of (inst_dict self) ''id'' = None then Some (PyStr (p @ ''_'' @ n))
       else map_of (inst_dict self) k)" for k
    by (simp add: self1_def hasattr_identifier inst_setattr)
  have i2: "map_of (inst_dict self2) k =
      (if k = ''name'' \<and> map_of (inst_dict self1) ''name'' = None then Some (PyStr n)
       else map_of (inst_dict self1) k)" for k
    by (simp add: self2_def hasattr_identifier inst_setattr)
  have i3: "map_of (inst_dict self3) k =
      (if k = ''title'' \<and> map_of (inst_dict self2) ''title'' = None
       then Some (PyStr (capitalize n))
       else map_of (inst_dict self2) k)" for k
    by (simp add: self3_def hasattr_identifier inst_setattr)
  have "getattr self3 ''id'' =
       Some (case map_of (inst_dict self) ''id'' of Some v \<Rightarrow> v | None \<Rightarrow> PyStr (p @ ''_'' @ n))"
    by (simp add: getattr_identifier i3 i2 i1 split: option.splits)
  moreover have "getattr self3 ''name'' =
       Some (case map_of (inst_dict self) ''name'' of Some v \<Rightarrow> v | None \<Rightarrow> PyStr n)"
    by (simp add: getattr_identifier i3 i2 i1 split: option.splits)
  moreover have "getattr self3 ''title'' =
       Some (case map_of (inst_dict self) ''title'' of Some v \<Rightarrow> v | None \<Rightarrow> PyStr (capitalize n))"
    by (simp add: getattr_identifier i3 i2 i1 split: option.splits)
  ultimately show ?thesis using run by blast
qed

text \<open>
  C7, as stated, fails on the fields of class \<open>LeaderNode\<close>, whose \<open>set_identifiers\<close>
  removes the title after the base method has run: a leader constructed with
  \<open>title="Start"\<close> has no \<open>title\<close> when \<open>set_identifiers\<close> has returned, so the title
  supplied at construction is not left unchanged and no title is set.
\<close>

theorem set_identifiers_leader_title_counterexample:
  "attr_name ((fst (Node_init LeaderNode [(''title'', PyStr ''Start'')] 0))\<lparr>attr_name := Some ''start''\<rparr>)
     = Some ''start''
   \<and> getattr ((fst (Node_init LeaderNode [(''title'', PyStr ''Start'')] 0))\<lparr>attr_name := Some ''start''\<rparr>)
        ''title'' = Some (PyStr ''Start'')
   \<and> fst (set_identifiers ''form''
        ((fst (Node_init LeaderNode [(''title'', PyStr ''Start'')] 0))\<lparr>attr_name := Some ''start''\<rparr>))
     = None
   \<and> getattr (snd (set_identifiers ''form''
        ((fst (Node_init LeaderNode [(''title'', PyStr ''Start'')] 0))\<lparr>attr_name := Some ''start''\<rparr>)))
        ''title'' = None"
  by (simp add: set_identifiers_def LeaderNode_set_identifiers_def Node_set_identifiers_def
        hasattr_def setattr_def node_eval)

text \<open>
  C7, amended. For every field with attribute name \<open>n\<close> and every parent name \<open>p\<close>,
  \<open>set_identifiers\<close> returns normally; afterwards \<open>id\<close> and \<open>name\<close> hold the value given
  at construction where there was one, and otherwise \<open>p_n\<close> and \<open>n\<close>; on a field that
  is not a \<open>LeaderNode\<close>, \<open>title\<close> holds the value given at construction where there was
  one and otherwise \<open>n\<close> capitalized; on a \<open>LeaderNode\<close> the field has no \<open>title\<close>
  afterwards, whether or not one was given.
\<close>

theorem set_identifiers_defaults:
  assumes "attr_name self = Some n"
  shows "\<exists>self'. set_identifiers p self = (None, self') \<and>
     getattr self' ''id'' =
       Some (case map_of (inst_dict self) ''id'' of Some v \<Rightarrow> v | None \<Rightarrow> PyStr (p @ ''_'' @ n)) \<and>
     getattr self' ''name'' =
       Some (case map_of (inst_dict self) ''name'' of Some v \<Rightarrow> v | None \<Rightarrow> PyStr n) \<and>
     getattr self' ''title'' =
       (if node_class self = LeaderNode then None
        else Some (case map_of (inst_dict self) ''title'' of
                     Some v \<Rightarrow> v | None \<Rightarrow> PyStr (capitalize n)))"
proof -
  from Node_set_identifiers_defaults[OF assms, of p] obtain s where
    run: "Node_set_identifiers p self = (None, s)"
    and sid: "getattr s ''id'' =
       Some (case map_of (inst_dict self) ''id'' of Some v \<Rightarrow> v | None \<Rightarrow> PyStr (p @ ''_'' @ n))"
    and sname: "getattr s ''name'' =
       Some (case map_of (inst_dict self) ''name'' of Some v \<Rightarrow> v | None \<Rightarrow> PyStr n)"
    and stitle: "getattr s ''title'' =
       Some (case map_of (inst_dict self) ''title'' of Some v \<Rightarrow> v | None \<Rightarrow> PyStr (capitalize n))"
    by blast
  show ?thesis
  proof (cases "node_class self = LeaderNode")
    case False
    then have "set_identifiers p self = (None, s)"
      using run by (simp add: set_identifiers_def)
    with sid sname stitle False show ?thesis by simp
  next
    case True
    define s' where "s' = s\<lparr>inst_dict := AList.delete ''title'' (inst_dict s)\<rparr>"
    from stitle obtain t where "map_of (inst_dict s) ''title'' = Some t"
      by (simp add: getattr_identifier)
    then have "(''title'', t) \<in> set (inst_dict s)" by (rule map_of_SomeD)
    then have "''title'' \<in> fst ` set (inst_dict s)" by (rule rev_image_eqI) simp
    then have leader: "set_identifiers p self = (None, s')"
      using True run by (simp add: set_identifiers_def LeaderNode_set_identifiers_def s'_def)
    have d: "map_of (inst_dict s') k = (if k = ''title'' then None else map_of (inst_dict s) k)"
      for k
      by (simp add: s'_def delete_conv')
    have "getattr s' ''id'' = getattr s ''id''"
      by (simp add: getattr_identifier d)
    moreover have "getattr s' ''name'' = getattr s ''name''"
      by (simp add: getattr_identifier d)
    moreover have "getattr s' ''title'' = None"
      by (simp add: getattr_identifier d)
    ultimately show ?thesis using leader sid sname True by simp
  qed
qed

lemma capitalize_password: "capitalize ''password'' = ''Password''"
  by code_simp

text \<open>
  The field \<open>password\<close> of the form \<open>login\<close>, without and with an explicit \<open>id\<close>, and a
  leader named \<open>start\<close> with an explicit \<open>id\<close>.
\<close>

theorem set_identifiers_defaults_witness:
  "attr_name ((fst (Node_init EntryNode [] 0))\<lparr>attr_name := Some ''password''\<rparr>) = Some ''password''
   \<and> (\<exists>self'. set_identifiers ''login''
                 ((fst (Node_init EntryNode [] 0))\<lparr>attr_name := Some ''password''\<rparr>) = (None, self')
        \<and> getattr self' ''id'' = Some (PyStr ''login_password'')
        \<and> getattr self' ''name'' = Some (PyStr ''password'')
        \<and> getattr self' ''title'' = Some (PyStr ''Password''))
   \<and> (\<exists>self'. set_identifiers ''login''
                 ((fst (Node_init EntryNode [(''id'', PyStr ''custom'')] 0))
                    \<lparr>attr_name := Some ''password''\<rparr>) = (None, self')
        \<and> getattr self' ''id'' = Some (PyStr ''custom''))
   \<and> (\<exists>self'. set_identifiers ''login''
                 ((fst (Node_init LeaderNode [(''id'', PyStr ''top'')] 0))
                    \<lparr>attr_name := Some ''start''\<rparr>) = (None, self')
        \<and> getattr self' ''id'' = Some (PyStr ''top'')
        \<and> getattr self' ''name'' = Some (PyStr ''start'')
        \<and> getattr self' ''title'' = None)"
proof -
  define n where "n = (fst (Node_init EntryNode [] 0))\<lparr>attr_name := Some ''password''\<rparr>"
  define c where
    "c = (fst (Node_init EntryNode [(''id'', PyStr ''custom'')] 0))\<lparr>attr_name := Some ''password''\<rparr>"
  define l where
    "l = (fst (Node_init LeaderNode [(''id'', PyStr ''top'')] 0))\<lparr>attr_name := Some ''start''\<rparr>"
  have hn: "attr_name n = Some ''password''" by (simp add: n_def)
  have hc: "attr_name c = Some ''password''" by (simp add: c_def)
  have hl: "attr_name l = Some ''start''" by (simp add: l_def)
  have cn: "node_class n \<noteq> LeaderNode" and dn: "inst_dict n = []"
    by (simp_all add: n_def Node_init_def)
  have cc: "node_class c \<noteq> LeaderNode" and dc: "inst_dict c = [(''id'', PyStr ''custom'')]"
    by (simp_all add: c_def Node_init_def)
  have cl: "node_class l = LeaderNode" and dl: "inst_dict l = [(''id'', PyStr ''top'')]"
    by (simp_all add: l_def Node_init_def)
  from set_identifiers_defaults[OF hn, of "''login''"] cn
  have a: "\<exists>self'. set_identifiers ''login'' n = (None, self')
        \<and> getattr self' ''id'' = Some (PyStr ''login_password'')
        \<and> getattr self' ''name'' = Some (PyStr ''password'')
        \<and> getattr self' ''title'' = Some (PyStr ''Password'')"
    by (auto simp add: dn capitalize_password simp del: capitalize.simps)
  from set_identifiers_defaults[OF hc, of "''login''"] cc
  have b: "\<exists>self'. set_identifiers ''login'' c = (None, self')
        \<and> getattr self' ''id'' = Some (PyStr ''custom'')"
    by (auto simp add: dc)
  from set_identifiers_defaults[OF hl, of "''login''"] cl
  have e: "\<exists>self'. set_identifiers ''login'' l = (None, self')
        \<and> getattr self' ''id'' = Some (PyStr ''top'')
        \<and> getattr self' ''name'' = Some (PyStr ''start'')
        \<and> getattr self' ''title'' = None"
    by (auto simp add: dl)
  from hn a b e show ?thesis unfolding n_def c_def l_def by (intro conjI)
qed

section \<open>Submitted data\<close>

text \<open>
  C8. When the node's \<open>name\<close> is a key of the submission, \<open>resolve_data\<close> returns and the
  node's \<open>data\<close> is the submitted value, whatever that value is; when it is not a key,
  \<open>FormDataAccessException\<close> is raised; and no other exception comes out of the call.
\<close>

theorem resolve_data_binds:
  "(getattr self ''name'' = Some (PyStr nm) \<and> data nm = Some v \<longrightarrow>
      (\<exists>self'. resolve_data data self = Inr self' \<and> getattr self' ''data'' = Some v))
   \<and> (getattr self ''name'' = Some (PyStr nm) \<and> data nm = None \<longrightarrow>
      resolve_data data self = Inl FormDataAccessException)
   \<and> (resolve_data data self = Inl e \<longrightarrow> e = FormDataAccessException)"
proof -
  have present: "getattr self ''name'' = Some (PyStr nm) \<and> data nm = Some v \<longrightarrow>
      (\<exists>self'. resolve_data data self = Inr self' \<and> getattr self' ''data'' = Some v)"
    by (simp add: resolve_data_def getattr_setattr)
  have absent: "getattr self ''name'' = Some (PyStr nm) \<and> data nm = None \<longrightarrow>
      resolve_data data self = Inl FormDataAccessException"
    by (simp add: resolve_data_def)
  have only: "resolve_data data self = Inl e \<longrightarrow> e = FormDataAccessException"
    by (simp add: resolve_data_def split: option.splits pyval.splits)
  from present absent only show ?thesis by blast
qed

text \<open>
  A field named \<open>password\<close>: a submission with an empty password binds the empty string,
  the submission \<open>{"username": "bob"}\<close> raises.
\<close>

theorem resolve_data_binds_witness:
  "(\<exists>self'. resolve_data [''password'' \<mapsto> PyStr []]
                (fst (Node_init EntryNode [(''name'', PyStr ''password'')] 0)) = Inr self'
       \<and> getattr self' ''data'' = Some (PyStr []))
   \<and> resolve_data [''username'' \<mapsto> PyStr ''bob'']
        (fst (Node_init EntryNode [(''name'', PyStr ''password'')] 0))
        = Inl FormDataAccessException"
proof -
  define n where "n = fst (Node_init EntryNode [(''name'', PyStr ''password'')] 0)"
  have nm: "getattr n ''name'' = Some (PyStr ''password'')"
    by (simp add: n_def node_eval)
  have present: "[''password'' \<mapsto> PyStr []] ''password'' = Some (PyStr [])" by simp
  have absent: "[''username'' \<mapsto> PyStr ''bob''] ''password'' = None" by simp
  from resolve_data_binds[of n "''password''" "[''password'' \<mapsto> PyStr []]" "PyStr []"]
    nm present
  have a: "\<exists>self'. resolve_data [''password'' \<mapsto> PyStr []] n = Inr self'
       \<and> getattr self' ''data'' = Some (PyStr [])" by blast
  from resolve_data_binds[of n "''password''" "[''username'' \<mapsto> PyStr ''bob'']"] nm absent
  have b: "resolve_data [''username'' \<mapsto> PyStr ''bob''] n = Inl FormDataAccessException" by blast
  from a b show ?thesis unfolding n_def by (rule conjI)
qed

section \<open>The rendering context\<close>

lemma map_of_harvest_aux:
  "map_of (concat (map (\<lambda>i. case f i of Some v \<Rightarrow> [(i, v)] | None \<Rightarrow> []) xs)) k
     = (if k \<in> set xs then f k else None)"
  by (induction xs) (auto split: option.splits)

text \<open>
  The harvested dictionary, key by key: an attribute of the node, unless its name starts
  with an underscore or is listed in \<open>_ignores\<close>.
\<close>

lemma map_of_harvest:
  "map_of (harvest self) k =
     (if startswith k ''_'' \<or> k \<in> set (ignores self) then None else getattr self k)"
proof (cases "getattr self k")
  case None
  then show ?thesis by (simp add: harvest_def map_of_harvest_aux)
next
  case (Some v)
  then show ?thesis using getattr_in_dir[OF Some]
    by (simp add: harvest_def map_of_harvest_aux)
qed

lemma find_None_all: "find P xs = None \<longleftrightarrow> (\<forall>x \<in> set xs. \<not> P x)"
  by (induction xs) auto

lemma find_Some_first:
  "find P xs = Some x \<Longrightarrow>
     \<exists>before after. xs = before @ x # after \<and> (\<forall>y \<in> set before. \<not> P y) \<and> P x"
proof (induction xs)
  case Nil
  then show ?case by simp
next
  case (Cons a xs)
  show ?case
  proof (cases "P a")
    case True
    with Cons.prems have "a # xs = [] @ x # xs \<and> (\<forall>y \<in> set []. \<not> P y) \<and> P x" by simp
    then show ?thesis by blast
  next
    case False
    with Cons.prems have "find P xs = Some x" by simp
    from Cons.IH[OF this] obtain before after where
      "xs = before @ x # after" "\<forall>y \<in> set before. \<not> P y" "P x" by blast
    with False have "a # xs = (a # before) @ x # after \<and> (\<forall>y \<in> set (a # before). \<not> P y) \<and> P x"
      by simp
    then show ?thesis by blast
  qed
qed

text \<open>
  C6, as stated, fails: the global context is stored under \<open>g\<close> after the filter has
  run, so a node that lists \<open>g\<close> in \<open>_ignores\<close> still gets the key \<open>g\<close> in its context.
\<close>

theorem get_context_reserved_key_counterexample:
  "''g'' \<in> set (ignores ((fst (Node_init Node [] 0))\<lparr>ignores := [''g'']\<rparr>))
   \<and> returned_key (get_context (PyStr ''ctx'') ((fst (Node_init Node [] 0))\<lparr>ignores := [''g'']\<rparr>)) ''g''
       = Some (PyStr ''ctx'')"
  by (simp add: returned_key_def get_context_def Node_init_def)

text \<open>
  C6, amended. A context that \<open>get_context\<close> returns holds the global context under \<open>g\<close>,
  holds every required key, and holds no key other than \<open>g\<close> that is listed in \<open>_ignores\<close>
  or starts with an underscore. When a required name is missing from the harvested
  dictionary, the call raises \<open>InvalidContextException\<close>, and the name in its message is
  the first missing one in the order of \<open>_requires\<close>: every required name before it is
  present. When none is missing, the call returns.
\<close>

theorem get_context_contract:
  "(get_context g self = Inr d \<longrightarrow>
        d ''g'' = Some g
      \<and> (\<forall>r \<in> set (requires self). d r \<noteq> None)
      \<and> (\<forall>k. k \<noteq> ''g'' \<and> (k \<in> set (ignores self) \<or> startswith k ''_'') \<longrightarrow> d k = None))
   \<and> ((\<exists>r \<in> set (requires self). map_of (harvest self) r = None) \<longrightarrow>
        (\<exists>before r after. requires self = before @ r # after
           \<and> (\<forall>x \<in> set before. map_of (harvest self) x \<noteq> None)
           \<and> map_of (harvest self) r = None
           \<and> get_context g self = Inl (InvalidContextException
                    (''Missing required context value '' @ [CHR 0x27] @ r @ [CHR 0x27]))))
   \<and> ((\<forall>r \<in> set (requires self). map_of (harvest self) r \<noteq> None) \<longrightarrow>
        (\<exists>d. get_context g self = Inr d))"
proof -
  let ?absent = "\<lambda>r. map_of (harvest self) r = None"
  have returned: "get_context g self = Inr d \<longrightarrow>
        d ''g'' = Some g
      \<and> (\<forall>r \<in> set (requires self). d r \<noteq> None)
      \<and> (\<forall>k. k \<noteq> ''g'' \<and> (k \<in> set (ignores self) \<or> startswith k ''_'') \<longrightarrow> d k = None)"
  proof
    assume ok: "get_context g self = Inr d"
    then have nf: "find ?absent (requires self) = None"
      and d: "d = (map_of (harvest self))(''g'' \<mapsto> g)"
      by (auto simp: get_context_def Let_def split: option.splits)
    have "d ''g'' = Some g" by (simp add: d)
    moreover have "\<forall>r \<in> set (requires self). d r \<noteq> None"
      using nf by (simp add: d find_None_all)
    moreover have
      "\<forall>k. k \<noteq> ''g'' \<and> (k \<in> set (ignores self) \<or> startswith k ''_'') \<longrightarrow> d k = None"
      by (auto simp: d map_of_harvest)
    ultimately show "d ''g'' = Some g
      \<and> (\<forall>r \<in> set (requires self). d r \<noteq> None)
      \<and> (\<forall>k. k \<noteq> ''g'' \<and> (k \<in> set (ignores self) \<or> startswith k ''_'') \<longrightarrow> d k = None)"
      by blast
  qed
  have raised: "(\<exists>r \<in> set (requires self). ?absent r) \<longrightarrow>
        (\<exists>before r after. requires self = before @ r # after
           \<and> (\<forall>x \<in> set before. \<not> ?absent x)
           \<and> ?absent r
           \<and> get_context g self = Inl (InvalidContextException
                    (''Missing required context value '' @ [CHR 0x27] @ r @ [CHR 0x27])))"
  proof
    assume "\<exists>r \<in> set (requires self). ?absent r"
    then obtain r where r: "find ?absent (requires self) = Some r"
      by (cases "find ?absent (requires self)") (auto simp: find_None_all)
    from find_Some_first[OF r] obtain before after where
      parts: "requires self = before @ r # after" "\<forall>x \<in> set before. \<not> ?absent x" "?absent r"
      by blast
    have exc: "get_context g self = Inl (InvalidContextException
                    (''Missing required context value '' @ [CHR 0x27] @ r @ [CHR 0x27]))"
      using r by (simp add: get_context_def Let_def)
    have "requires self = before @ r # after
           \<and> (\<forall>x \<in> set before. \<not> ?absent x)
           \<and> ?absent r
           \<and> get_context g self = Inl (InvalidContextException
                    (''Missing required context value '' @ [CHR 0x27] @ r @ [CHR 0x27]))"
      using parts exc by (intro conjI)
    then show "\<exists>before r after. requires self = before @ r # after
           \<and> (\<forall>x \<in> set before. \<not> ?absent x)
           \<and> ?absent r
           \<and> get_context g self = Inl (InvalidContextException
                    (''Missing required context value '' @ [CHR 0x27] @ r @ [CHR 0x27]))"
      by (intro exI)
  qed
  have complete:
    "(\<forall>r \<in> set (requires self). \<not> ?absent r) \<longrightarrow> (\<exists>d. get_context g self = Inr d)"
  proof
    assume "\<forall>r \<in> set (requires self). \<not> ?absent r"
    then have "find ?absent (requires self) = None"
      by (simp add: find_None_all)
    then show "\<exists>d. get_context g self = Inr d"
      by (simp add: get_context_def Let_def)
  qed
  show ?thesis by (rule conjI[OF returned conjI[OF raised complete]])
qed

text \<open>
  A \<open>ListNode\<close> with its \<open>items\<close> renders; one that requires \<open>items\<close> and \<open>choices\<close> and
  has neither raises, naming \<open>items\<close>.
\<close>

theorem get_context_contract_witness:
  "(\<exists>d. get_context (PyStr ''ctx'') (fst (Node_init ListNode [(''items'', PyListRef 1)] 0)) = Inr d
        \<and> d ''g'' = Some (PyStr ''ctx'') \<and> d ''items'' \<noteq> None
        \<and> d ''template'' = None \<and> d ''validator'' = None \<and> d ''_requires'' = None)
   \<and> get_context (PyStr ''ctx'')
        ((fst (Node_init ListNode [] 0))\<lparr>requires := [''items'', ''choices'']\<rparr>)
        = Inl (InvalidContextException
                 (''Missing required context value '' @ [CHR 0x27] @ ''items'' @ [CHR 0x27]))"
proof -
  define ok where "ok = fst (Node_init ListNode [(''items'', PyListRef 1)] 0)"
  define bad where "bad = (fst (Node_init ListNode [] 0))\<lparr>requires := [''items'', ''choices'']\<rparr>"
  define g where "g = PyStr ''ctx''"
  have req_ok: "requires ok = [''items'']" and ign_ok: "ignores ok = [''template'', ''validator'']"
    by (simp_all add: ok_def Node_init_def)
  have "map_of (harvest ok) ''items'' \<noteq> None"
    by (simp add: ok_def map_of_harvest node_eval startswith_def)
  then have present: "\<forall>r \<in> set (requires ok). map_of (harvest ok) r \<noteq> None"
    by (simp add: req_ok)
  from get_context_contract[of g ok] present obtain d where d: "get_context g ok = Inr d"
    by blast
  from get_context_contract[of g ok d] d
  have dg: "d ''g'' = Some g" and req: "\<forall>r \<in> set (requires ok). d r \<noteq> None"
    and ign: "\<forall>k. k \<noteq> ''g'' \<and> (k \<in> set (ignores ok) \<or> startswith k ''_'') \<longrightarrow> d k = None"
    by blast+
  from req have di: "d ''items'' \<noteq> None" by (simp add: req_ok)
  from ign have dt: "d ''template'' = None" by (simp add: ign_ok)
  from ign have dv: "d ''validator'' = None" by (simp add: ign_ok)
  from ign have dr: "d ''_requires'' = None" by (simp add: startswith_def)
  from d dg di dt dv dr have a: "\<exists>d. get_context g ok = Inr d
        \<and> d ''g'' = Some g \<and> d ''items'' \<noteq> None
        \<and> d ''template'' = None \<and> d ''validator'' = None \<and> d ''_requires'' = None"
    by blast
  have req_bad: "requires bad = [''items'', ''choices'']"
    by (simp add: bad_def)
  have items: "map_of (harvest bad) ''items'' = None"
    by (simp add: bad_def map_of_harvest node_eval)
  then have absent: "\<exists>r \<in> set (requires bad). map_of (harvest bad) r = None"
    by (simp add: req_bad)
  from get_context_contract[of g bad]
  have "(\<exists>r \<in> set (requires bad). map_of (harvest bad) r = None) \<longrightarrow>
        (\<exists>before r after. requires bad = before @ r # after
           \<and> (\<forall>x \<in> set before. map_of (harvest bad) x \<noteq> None)
           \<and> map_of (harvest bad) r = None
           \<and> get_context g bad = Inl (InvalidContextException
                    (''Missing required context value '' @ [CHR 0x27] @ r @ [CHR 0x27])))"
    by (rule conjunct1[OF conjunct2])
  from mp[OF this absent]
  obtain before r "after" where split: "requires bad = before @ r # after"
    and before: "\<forall>x \<in> set before. map_of (harvest bad) x \<noteq> None"
    and raised: "get_context g bad = Inl (InvalidContextException
                    (''Missing required context value '' @ [CHR 0x27] @ r @ [CHR 0x27]))"
    by (elim exE conjE)
  have "before = []"
  proof (cases before)
    case Nil
    then show ?thesis .
  next
    case (Cons x xs)
    with split req_bad have "x = ''items''" by simp
    with Cons before items show ?thesis by simp
  qed
  with split req_bad have "r = ''items''" by simp
  with raised have b: "get_context g bad
        = Inl (InvalidContextException
                 (''Missing required context value '' @ [CHR 0x27] @ ''items'' @ [CHR 0x27]))"
    by simp
  from a b show ?thesis unfolding ok_def bad_def g_def by (rule conjI)
qed

lemma Node_set_identifiers_class:
  "Node_set_identifiers p self = (r, self') \<Longrightarrow> node_class self' = node_class self"
  by (auto simp: Node_set_identifiers_def Let_def split: if_splits option.splits)

text \<open>
  C9. On a \<open>LeaderNode\<close>, when \<open>set_identifiers\<close> has returned, a context that
  \<open>get_context\<close> returns for the node has no key \<open>title\<close>, whatever was given at
  construction.
\<close>

theorem leader_context_no_title:
  assumes "node_class self = LeaderNode"
    and "set_identifiers p self = (None, self')"
    and "get_context g self' = Inr d"
  shows "d ''title'' = None"
proof -
  from assms(1,2) obtain s where s: "Node_set_identifiers p self = (None, s)"
    and self': "self' = s\<lparr>inst_dict := AList.delete ''title'' (inst_dict s)\<rparr>"
    by (auto simp: set_identifiers_def LeaderNode_set_identifiers_def
             split: prod.splits option.splits if_splits)
  have "node_class self' = LeaderNode"
    using Node_set_identifiers_class[OF s] assms(1) by (simp add: self')
  then have "getattr self' ''title'' = None"
    by (simp add: getattr_inst self' delete_conv' Node_attrs_def)
  then have "map_of (harvest self') ''title'' = None"
    by (simp add: map_of_harvest)
  moreover have "d = (map_of (harvest self'))(''g'' \<mapsto> g)"
    using assms(3) by (auto simp: get_context_def Let_def split: option.splits)
  ultimately show ?thesis by simp
qed

text \<open>A leader constructed with \<open>title="Start"\<close>.\<close>

theorem leader_context_no_title_witness:
  "node_class ((fst (Node_init LeaderNode [(''title'', PyStr ''Start'')] 0))\<lparr>attr_name := Some ''start''\<rparr>)
     = LeaderNode
   \<and> getattr ((fst (Node_init LeaderNode [(''title'', PyStr ''Start'')] 0))\<lparr>attr_name := Some ''start''\<rparr>)
        ''title'' = Some (PyStr ''Start'')
   \<and> fst (set_identifiers ''form''
        ((fst (Node_init LeaderNode [(''title'', PyStr ''Start'')] 0))\<lparr>attr_name := Some ''start''\<rparr>))
     = None
   \<and> (\<exists>d. get_context PyNone (snd (set_identifiers ''form''
        ((fst (Node_init LeaderNode [(''title'', PyStr ''Start'')] 0))\<lparr>attr_name := Some ''start''\<rparr>)))
          = Inr d
         \<and> d ''title'' = None)"
proof -
  define n where
    "n = (fst (Node_init LeaderNode [(''title'', PyStr ''Start'')] 0))\<lparr>attr_name := Some ''start''\<rparr>"
  define n' where "n' = snd (set_identifiers ''form'' n)"
  have c: "node_class n = LeaderNode" by (simp add: n_def Node_init_def)
  have t: "getattr n ''title'' = Some (PyStr ''Start'')" by (simp add: n_def node_eval)
  have f: "fst (set_identifiers ''form'' n) = None"
    by (simp add: n_def set_identifiers_def LeaderNode_set_identifiers_def
          Node_set_identifiers_def hasattr_def setattr_def node_eval)
  then have run: "set_identifiers ''form'' n = (None, n')"
    by (simp add: n'_def prod_eq_iff)
  have "requires n' = []"
    by (simp add: n'_def n_def set_identifiers_def LeaderNode_set_identifiers_def
          Node_set_identifiers_def hasattr_def setattr_def node_eval)
  then obtain d where d: "get_context PyNone n' = Inr d"
    by (simp add: get_context_def)
  from leader_context_no_title[OF c run d] have "d ''title'' = None" .
  with d have e: "\<exists>d. get_context PyNone n' = Inr d \<and> d ''title'' = None" by blast
  from c t f e show ?thesis unfolding n'_def n_def by (intro conjI)
qed

section \<open>Resolution of a binding\<close>

text \<open>
  C4. On a binding whose \<open>resolved\<close> flag is set, \<open>resolve_attr_names\<close> returns at once,
  whatever the registry: no exception, and the binding, with its positional and keyword
  references and its flag, is the one it was given.
\<close>

theorem resolve_attr_names_idempotent:
  "resolved self \<Longrightarrow> resolve_attr_names get_by_attr self = (None, self)"
  by (simp add: resolve_attr_names_def)

text \<open>A resolved check, resolved again against a registry in which every lookup raises.\<close>

theorem resolve_attr_names_idempotent_witness:
  "resolved \<lparr>callable = Required_call ''A value is required'',
             args = [Field (fst (Node_init EntryNode [] 0))], kwargs = [],
             wrapper_attr_name = None, resolved = True\<rparr>
   \<and> resolve_attr_names (\<lambda>r. Inl (KeyError ''unknown''))
        \<lparr>callable = Required_call ''A value is required'',
          args = [Field (fst (Node_init EntryNode [] 0))], kwargs = [],
          wrapper_attr_name = None, resolved = True\<rparr>
      = (None, \<lparr>callable = Required_call ''A value is required'',
          args = [Field (fst (Node_init EntryNode [] 0))], kwargs = [],
          wrapper_attr_name = None, resolved = True\<rparr>)"
proof -
  define w :: action_wrapper where
    "w = \<lparr>callable = Required_call ''A value is required'',
          args = [Field (fst (Node_init EntryNode [] 0))], kwargs = [],
          wrapper_attr_name = None, resolved = True\<rparr>"
  have r: "resolved w" by (simp add: w_def)
  from resolve_attr_names_idempotent[OF r, of "\<lambda>r. Inl (KeyError ''unknown'')"] r
  show ?thesis unfolding w_def by (rule conjI[rotated])
qed

lemma resolve_args_success:
  "resolve_args f as = (None, as') \<Longrightarrow> \<exists>ns. map f as = map Inr ns \<and> as' = map Field ns"
proof (induction as arbitrary: as')
  case Nil
  then show ?case by simp
next
  case (Cons a as)
  then obtain n rest where n: "f a = Inr n" and rest: "resolve_args f as = (None, rest)"
    and as': "as' = Field n # rest"
    by (auto split: sum.splits prod.splits)
  from Cons.IH[OF rest] obtain ns where "map f as = map Inr ns" "rest = map Field ns" by blast
  then have "map f (a # as) = map Inr (n # ns) \<and> as' = map Field (n # ns)"
    using n as' by simp
  then show ?case by blast
qed

lemma resolve_kwargs_success:
  "resolve_kwargs f kws = (None, kws') \<Longrightarrow>
     \<exists>ns. map (f \<circ> snd) kws = map Inr ns \<and> kws' = zip (map fst kws) (map Field ns)"
proof (induction kws arbitrary: kws')
  case Nil
  then show ?case by simp
next
  case (Cons kv kws)
  obtain key val where kv: "kv = (key, val)" by (cases kv)
  from Cons.prems kv obtain n rest where n: "f val = Inr n"
    and rest: "resolve_kwargs f kws = (None, rest)"
    and kws': "kws' = (key, Field n) # rest"
    by (auto split: sum.splits prod.splits)
  from Cons.IH[OF rest] obtain ns where "map (f \<circ> snd) kws = map Inr ns"
    "rest = zip (map fst kws) (map Field ns)" by blast
  then have "map (f \<circ> snd) (kv # kws) = map Inr (n # ns) \<and>
     kws' = zip (map fst (kv # kws)) (map Field (n # ns))"
    using n kws' kv by simp
  then show ?case by blast
qed

section \<open>Invoking a binding\<close>

text \<open>
  C5. On a binding that is not resolved, \<open>__call__\<close> and \<open>node_visited\<close> raise the
  \<open>ValueError\<close> of the unresolved binding and change nothing. When
  \<open>resolve_attr_names\<close> has returned normally on such a binding, every lookup returned a
  field object, the stored references are these field objects in the order and under the
  keys of the names, and \<open>__call__\<close> applies the callable to exactly them.
\<close>

theorem call_requires_resolution:
  "(\<not> resolved self \<longrightarrow> call self h = (Inl not_resolved, h))
   \<and> (\<not> resolved chk \<longrightarrow> node_visited gl V chk = (Inl not_resolved, chk))
   \<and> (\<not> resolved self \<and> resolve_attr_names get_by_attr self = (None, self') \<longrightarrow>
        (\<exists>ns kns. map get_by_attr (args self) = map Inr ns
           \<and> map (get_by_attr \<circ> snd) (kwargs self) = map Inr kns
           \<and> args self' = map Field ns
           \<and> kwargs self' = zip (map fst (kwargs self)) (map Field kns)
           \<and> call self' h =
               (case callable self (map Field ns) (zip (map fst (kwargs self)) (map Field kns)) h
                of (r, h') \<Rightarrow> (except_TypeError r, h'))))"
proof -
  have unresolved_call: "\<not> resolved self \<longrightarrow> call self h = (Inl not_resolved, h)"
    by (simp add: call_def)
  have unresolved_gate: "\<not> resolved chk \<longrightarrow> node_visited gl V chk = (Inl not_resolved, chk)"
    by (simp add: node_visited_def)
  have after: "\<not> resolved self \<and> resolve_attr_names get_by_attr self = (None, self') \<longrightarrow>
        (\<exists>ns kns. map get_by_attr (args self) = map Inr ns
           \<and> map (get_by_attr \<circ> snd) (kwargs self) = map Inr kns
           \<and> args self' = map Field ns
           \<and> kwargs self' = zip (map fst (kwargs self)) (map Field kns)
           \<and> call self' h =
               (case callable self (map Field ns) (zip (map fst (kwargs self)) (map Field kns)) h
                of (r, h') \<Rightarrow> (except_TypeError r, h')))"
  proof
    assume p: "\<not> resolved self \<and> resolve_attr_names get_by_attr self = (None, self')"
    then obtain as kws where as: "resolve_args get_by_attr (args self) = (None, as)"
      and kws: "resolve_kwargs get_by_attr (kwargs self) = (None, kws)"
      and self': "self' = self\<lparr>args := as, kwargs := kws, resolved := True\<rparr>"
      by (auto simp: resolve_attr_names_def split: prod.splits option.splits)
    from resolve_args_success[OF as] obtain ns where
      ns: "map get_by_attr (args self) = map Inr ns" "as = map Field ns" by blast
    from resolve_kwargs_success[OF kws] obtain kns where
      kns: "map (get_by_attr \<circ> snd) (kwargs self) = map Inr kns"
           "kws = zip (map fst (kwargs self)) (map Field kns)" by blast
    have "call self' h =
               (case callable self (map Field ns) (zip (map fst (kwargs self)) (map Field kns)) h
                of (r, h') \<Rightarrow> (except_TypeError r, h'))"
      by (simp add: call_def self' ns(2) kns(2))
    with ns kns self' show "\<exists>ns kns. map get_by_attr (args self) = map Inr ns
           \<and> map (get_by_attr \<circ> snd) (kwargs self) = map Inr kns
           \<and> args self' = map Field ns
           \<and> kwargs self' = zip (map fst (kwargs self)) (map Field kns)
           \<and> call self' h =
               (case callable self (map Field ns) (zip (map fst (kwargs self)) (map Field kns)) h
                of (r, h') \<Rightarrow> (except_TypeError r, h'))"
      by auto
  qed
  from unresolved_call unresolved_gate after show ?thesis by blast
qed

text \<open>
  \<open>Check(Required(), 'password')\<close>: invoked and queried before resolution, then resolved
  against a form with the field and invoked; the field has no data, so the validator records
  its message.
\<close>

theorem call_requires_resolution_witness:
  "call (ActionWrapper_init (Required_call ''A value is required'') [''password''] []) initial_store
     = (Inl not_resolved, initial_store)
   \<and> fst (node_visited (\<lambda>n. Inr []) {''password''}
            (ActionWrapper_init (Required_call ''A value is required'') [''password''] []))
     = Inl not_resolved
   \<and> fst (resolve_attr_names
            (\<lambda>r. if r = Name ''password'' then Inr (fst (Node_init EntryNode [] 0))
                  else Inl (KeyError ''unknown''))
            (ActionWrapper_init (Required_call ''A value is required'') [''password''] [])) = None
   \<and> call (snd (resolve_attr_names
            (\<lambda>r. if r = Name ''password'' then Inr (fst (Node_init EntryNode [] 0))
                  else Inl (KeyError ''unknown''))
            (ActionWrapper_init (Required_call ''A value is required'') [''password''] [])))
        initial_store
     = (Inr PyNone,
        initial_store(Node_errors := [PyDict [(''message'', PyStr ''A value is required'')]]))"
proof -
  define pw where "pw = fst (Node_init EntryNode [] 0)"
  define form where
    "form = (\<lambda>r. if r = Name ''password'' then Inr pw else Inl (KeyError ''unknown''))"
  define gl :: "node \<Rightarrow> exn + string list" where "gl = (\<lambda>n. Inr [])"
  define w where "w = ActionWrapper_init (Required_call ''A value is required'') [''password''] []"
  define w' where "w' = snd (resolve_attr_names form w)"
  have u: "\<not> resolved w" and aw: "args w = [Name ''password'']" and kw: "kwargs w = []"
    and cw: "callable w = Required_call ''A value is required''"
    by (simp_all add: w_def ActionWrapper_init_def)
  have ok: "fst (resolve_attr_names form w) = None"
    by (simp add: resolve_attr_names_def u aw kw form_def)
  then have run: "resolve_attr_names form w = (None, w')"
    by (simp add: w'_def prod_eq_iff)
  from call_requires_resolution[of w initial_store w gl "{''password''}" form w'] u run
  have a: "call w initial_store = (Inl not_resolved, initial_store)"
    and b: "node_visited gl {''password''} w = (Inl not_resolved, w)"
    and c: "\<exists>ns kns. map form (args w) = map Inr ns
           \<and> map (form \<circ> snd) (kwargs w) = map Inr kns
           \<and> args w' = map Field ns
           \<and> kwargs w' = zip (map fst (kwargs w)) (map Field kns)
           \<and> call w' initial_store =
               (case callable w (map Field ns) (zip (map fst (kwargs w)) (map Field kns))
                       initial_store
                of (r, h') \<Rightarrow> (except_TypeError r, h'))"
    by blast+
  from c obtain ns kns where ns: "map form (args w) = map Inr ns"
    and cl: "call w' initial_store =
               (case callable w (map Field ns) (zip (map fst (kwargs w)) (map Field kns))
                       initial_store
                of (r, h') \<Rightarrow> (except_TypeError r, h'))"
    by blast
  from ns have "ns = [pw]" by (auto simp: aw form_def)
  with cl have "call w' initial_store =
     (case Required_call ''A value is required'' [Field pw] [] initial_store
        of (r, h') \<Rightarrow> (except_TypeError r, h'))"
    by (simp add: kw cw)
  also have "Required_call ''A value is required'' [Field pw] [] initial_store =
     (Returns PyNone,
      initial_store(Node_errors := [PyDict [(''message'', PyStr ''A value is required'')]]))"
    by (simp add: Required_call_def Required_body_def add_error_def pw_def node_eval
          initial_store_def)
  finally have d: "call w' initial_store =
     (Inr PyNone,
      initial_store(Node_errors := [PyDict [(''message'', PyStr ''A value is required'')]]))"
    by simp
  from b have b': "fst (node_visited gl {''password''} w) = Inl not_resolved" by simp
  from a b' ok d show ?thesis unfolding w'_def w_def form_def pw_def gl_def by (intro conjI)
qed

text \<open>
  What the \<open>try\<close> statement of \<open>__call__\<close> lets through and what it replaces, on a
  resolved binding, \<open>Check\<close> or \<open>Listener\<close>: an exception raised in the body of the
  callable that is not a \<open>TypeError\<close> reaches the caller unchanged, and the failure of
  the call itself, the callable not accepting the arguments, becomes a
  \<open>NotCallableException\<close> whose message ends with the text of the original exception.
\<close>

lemma call_propagation:
  assumes "resolved self"
  shows "(callable self (args self) (kwargs self) h = (BodyRaises e, h')
            \<and> (\<forall>m. e \<noteq> TypeError m) \<longrightarrow> call self h = (Inl e, h'))
       \<and> (callable self (args self) (kwargs self) h = (CannotInvoke m, h')
            \<longrightarrow> call self h = (Inl (not_callable m), h'))"
proof -
  have other: "(\<forall>m. e \<noteq> TypeError m) \<Longrightarrow> except_TypeError (BodyRaises e) = Inl e"
    by (cases e) simp_all
  show ?thesis using assms by (auto simp: call_def other)
qed

text \<open>
  A check on \<open>Required\<close> without a target (the body raises \<open>AttributeError\<close>, which
  passes) and a listener that hands it two targets (the call itself fails).
\<close>

lemma call_propagation_example:
  "call \<lparr>callable = Required_call ''A value is required'', args = [], kwargs = [],
         wrapper_attr_name = None, resolved = True\<rparr> initial_store
     = (Inl (AttributeError ''data''), initial_store)
   \<and> call \<lparr>callable = Required_call ''A value is required'',
           args = [Name ''a'', Name ''b''], kwargs = [],
           wrapper_attr_name = None, resolved = True, listener_type = ''submit''\<rparr> initial_store
     = (Inl (not_callable ''__call__() takes at most 2 arguments''), initial_store)"
proof -
  define w0 :: action_wrapper where
    "w0 = \<lparr>callable = Required_call ''A value is required'', args = [], kwargs = [],
           wrapper_attr_name = None, resolved = True\<rparr>"
  define w2 :: listener where
    "w2 = \<lparr>callable = Required_call ''A value is required'',
           args = [Name ''a'', Name ''b''], kwargs = [],
           wrapper_attr_name = None, resolved = True, listener_type = ''submit''\<rparr>"
  have r0: "resolved w0" by (simp add: w0_def)
  have r2: "resolved w2" by (simp add: w2_def)
  have c0: "callable w0 (args w0) (kwargs w0) initial_store
              = (BodyRaises (AttributeError ''data''), initial_store)"
    by (simp add: w0_def Required_call_def Required_body_def)
  have c2: "callable w2 (args w2) (kwargs w2) initial_store
              = (CannotInvoke ''__call__() takes at most 2 arguments'', initial_store)"
    by (simp add: w2_def Required_call_def)
  have nt: "\<forall>m. AttributeError ''data'' \<noteq> TypeError m" by simp
  from call_propagation[OF r0, of initial_store "AttributeError ''data''" initial_store] c0 nt
  have a: "call w0 initial_store = (Inl (AttributeError ''data''), initial_store)" by blast
  from call_propagation[OF r2, of initial_store _ _ "''__call__() takes at most 2 arguments''"] c2
  have b: "call w2 initial_store
             = (Inl (not_callable ''__call__() takes at most 2 arguments''), initial_store)"
    by blast
  from a b show ?thesis unfolding w0_def w2_def by (rule conjI)
qed

text \<open>
  C1. The claim: an exception raised inside the validator's own body propagates unchanged,
  and only the failure to invoke the callable is re-raised as \<open>NotCallableException\<close>. The
  code does not keep the two apart when the body raises \<open>TypeError\<close>. The check
  \<open>Check(Required(), 'age')\<close> is resolved to a field whose data is the integer 5: the
  validator is invoked, \<open>len(target.data)\<close> raises \<open>TypeError\<close> inside its body, and the
  caller of the binding receives \<open>NotCallableException\<close>, not that \<open>TypeError\<close>.
\<close>

theorem call_wraps_body_TypeError:
  "resolved \<lparr>callable = Required_call ''A value is required'',
             args = [Field (fst (Node_init EntryNode [(''data'', PyInt 5)] 0))], kwargs = [],
             wrapper_attr_name = None, resolved = True\<rparr>
   \<and> Required_call ''A value is required''
        [Field (fst (Node_init EntryNode [(''data'', PyInt 5)] 0))] [] initial_store
      = (BodyRaises (TypeError (''object of type '' @ [CHR 0x27] @ ''int'' @ [CHR 0x27]
                                @ '' has no len()'')),
         initial_store)
   \<and> fst (call \<lparr>callable = Required_call ''A value is required'',
             args = [Field (fst (Node_init EntryNode [(''data'', PyInt 5)] 0))], kwargs = [],
             wrapper_attr_name = None, resolved = True\<rparr> initial_store)
      = Inl (not_callable (''object of type '' @ [CHR 0x27] @ ''int'' @ [CHR 0x27]
                           @ '' has no len()''))
   \<and> fst (call \<lparr>callable = Required_call ''A value is required'',
             args = [Field (fst (Node_init EntryNode [(''data'', PyInt 5)] 0))], kwargs = [],
             wrapper_attr_name = None, resolved = True\<rparr> initial_store)
      \<noteq> Inl (TypeError (''object of type '' @ [CHR 0x27] @ ''int'' @ [CHR 0x27]
                        @ '' has no len()''))"
  by (simp add: call_def Required_call_def Required_body_def node_eval not_callable_def)

section \<open>The visitation gate\<close>

lemma name_found_iff: "name_found visited names = (\<exists>name \<in> set names. name \<in> visited)"
  by (induction names) auto

lemma nodes_visited_iff:
  "\<forall>r \<in> set rs. ref_names gl r = Inr (nm r) \<Longrightarrow>
   nodes_visited gl V rs = Inr (\<forall>r \<in> set rs. \<exists>name \<in> set (nm r). name \<in> V)"
  by (induction rs) (auto simp: name_found_iff)

lemma nodes_visited_mono:
  "nodes_visited gl V rs = Inr True \<Longrightarrow> V \<subseteq> W \<Longrightarrow> nodes_visited gl W rs = Inr True"
  by (induction rs) (auto simp: name_found_iff split: sum.splits if_splits)

lemma node_visited_reads_only: "snd (node_visited gl V self) = self"
  by (simp add: node_visited_def split: sum.splits bool.splits)

text \<open>
  C3. On a resolved check whose positional and keyword references all answer
  \<open>get_list_names\<close>, with the names \<open>nm r\<close> for the reference \<open>r\<close>, \<open>node_visited\<close>
  returns true exactly when every reference, positional or keyword, has one of its names
  in the visited set.
\<close>

theorem node_visited_iff:
  assumes "resolved self"
    and "\<forall>r \<in> set (args self) \<union> snd ` set (kwargs self). ref_names gl r = Inr (nm r)"
  shows "node_visited gl V self =
    (Inr (\<forall>r \<in> set (args self) \<union> snd ` set (kwargs self). \<exists>name \<in> set (nm r). name \<in> V),
     self)"
proof -
  have a: "nodes_visited gl V (args self)
             = Inr (\<forall>r \<in> set (args self). \<exists>name \<in> set (nm r). name \<in> V)"
    using assms(2) by (intro nodes_visited_iff) blast
  have k: "nodes_visited gl V (map snd (kwargs self))
             = Inr (\<forall>r \<in> set (map snd (kwargs self)). \<exists>name \<in> set (nm r). name \<in> V)"
    using assms(2) by (intro nodes_visited_iff) auto
  show ?thesis
    using assms(1) a k by (auto simp: node_visited_def split: sum.splits bool.splits)
qed

text \<open>
  A check over \<open>pw1\<close> (positional) and \<open>pw2\<close> (keyword), each field exposing its own
  name: ready when both were visited, not ready when \<open>pw2\<close> was not.
\<close>

theorem node_visited_iff_witness:
  "fst (node_visited
         (\<lambda>n. case attr_name n of Some a \<Rightarrow> Inr [a]
                                | None \<Rightarrow> Inl (AttributeError ''get_list_names''))
      {''pw1'', ''pw2''}
      \<lparr>callable = Required_call ''Fields must match'',
        args = [Field ((fst (Node_init EntryNode [] 0))\<lparr>attr_name := Some ''pw1''\<rparr>)],
        kwargs = [(''target2'', Field ((fst (Node_init EntryNode [] 1))\<lparr>attr_name := Some ''pw2''\<rparr>))],
        wrapper_attr_name = None, resolved = True\<rparr>) = Inr True
   \<and> fst (node_visited
         (\<lambda>n. case attr_name n of Some a \<Rightarrow> Inr [a]
                                | None \<Rightarrow> Inl (AttributeError ''get_list_names''))
      {''pw1''}
      \<lparr>callable = Required_call ''Fields must match'',
        args = [Field ((fst (Node_init EntryNode [] 0))\<lparr>attr_name := Some ''pw1''\<rparr>)],
        kwargs = [(''target2'', Field ((fst (Node_init EntryNode [] 1))\<lparr>attr_name := Some ''pw2''\<rparr>))],
        wrapper_attr_name = None, resolved = True\<rparr>) = Inr False"
proof -
  define gl :: "node \<Rightarrow> exn + string list" where
    "gl = (\<lambda>n. case attr_name n of Some a \<Rightarrow> Inr [a]
                                 | None \<Rightarrow> Inl (AttributeError ''get_list_names''))"
  define pw1 where "pw1 = Field ((fst (Node_init EntryNode [] 0))\<lparr>attr_name := Some ''pw1''\<rparr>)"
  define pw2 where "pw2 = Field ((fst (Node_init EntryNode [] 1))\<lparr>attr_name := Some ''pw2''\<rparr>)"
  define w :: action_wrapper where
    "w = \<lparr>callable = Required_call ''Fields must match'',
          args = [pw1], kwargs = [(''target2'', pw2)], wrapper_attr_name = None, resolved = True\<rparr>"
  define nm where "nm = (\<lambda>r. if r = pw1 then [''pw1''] else [''pw2''])"
  have ne: "pw2 \<noteq> pw1" by (simp add: pw1_def pw2_def Node_init_def)
  have r: "resolved w" by (simp add: w_def)
  have refs: "set (args w) \<union> snd ` set (kwargs w) = {pw1, pw2}" by (auto simp: w_def)
  have n1: "ref_names gl pw1 = Inr (nm pw1)"
    by (simp add: ref_names_def gl_def pw1_def nm_def)
  have n2: "ref_names gl pw2 = Inr (nm pw2)"
    using ne by (simp add: ref_names_def gl_def pw2_def nm_def)
  have ex: "\<forall>r \<in> set (args w) \<union> snd ` set (kwargs w). ref_names gl r = Inr (nm r)"
    unfolding refs using n1 n2 by simp
  have a: "fst (node_visited gl {''pw1'', ''pw2''} w) = Inr True"
    unfolding node_visited_iff[OF r ex] refs using ne by (simp add: nm_def)
  have b: "fst (node_visited gl {''pw1''} w) = Inr False"
    unfolding node_visited_iff[OF r ex] refs using ne by (simp add: nm_def)
  from a b show ?thesis unfolding w_def pw1_def pw2_def gl_def by (rule conjI)
qed

text \<open>
  C10. When \<open>node_visited\<close> returns true for a visited set, it returns true for every
  larger one; and the binding it leaves, with the field objects it refers to, is the
  binding it was given.
\<close>

theorem node_visited_monotone:
  assumes "V \<subseteq> W" and "fst (node_visited gl V self) = Inr True"
  shows "fst (node_visited gl W self) = Inr True
       \<and> snd (node_visited gl V self) = self \<and> snd (node_visited gl W self) = self"
proof -
  from assms(2) have r: "resolved self"
    and a: "nodes_visited gl V (args self) = Inr True"
    and k: "nodes_visited gl V (map snd (kwargs self)) = Inr True"
    by (auto simp: node_visited_def not_resolved_def split: if_splits sum.splits bool.splits)
  from nodes_visited_mono[OF a assms(1)] nodes_visited_mono[OF k assms(1)] r
  have "fst (node_visited gl W self) = Inr True" by (simp add: node_visited_def)
  then show ?thesis by (simp add: node_visited_reads_only)
qed

text \<open>The check over \<open>pw1\<close> and \<open>pw2\<close>, ready at both names, with \<open>email\<close> visited as well.\<close>

theorem node_visited_monotone_witness:
  "fst (node_visited
         (\<lambda>n. case attr_name n of Some a \<Rightarrow> Inr [a]
                                | None \<Rightarrow> Inl (AttributeError ''get_list_names''))
      {''pw1'', ''pw2'', ''email''}
      \<lparr>callable = Required_call ''Fields must match'',
        args = [Field ((fst (Node_init EntryNode [] 0))\<lparr>attr_name := Some ''pw1''\<rparr>)],
        kwargs = [(''target2'', Field ((fst (Node_init EntryNode [] 1))\<lparr>attr_name := Some ''pw2''\<rparr>))],
        wrapper_attr_name = None, resolved = True\<rparr>) = Inr True"
proof -
  define gl :: "node \<Rightarrow> exn + string list" where
    "gl = (\<lambda>n. case attr_name n of Some a \<Rightarrow> Inr [a]
                                 | None \<Rightarrow> Inl (AttributeError ''get_list_names''))"
  define w :: action_wrapper where
    "w = \<lparr>callable = Required_call ''Fields must match'',
        args = [Field ((fst (Node_init EntryNode [] 0))\<lparr>attr_name := Some ''pw1''\<rparr>)],
        kwargs = [(''target2'', Field ((fst (Node_init EntryNode [] 1))\<lparr>attr_name := Some ''pw2''\<rparr>))],
        wrapper_attr_name = None, resolved = True\<rparr>"
  have sub: "{''pw1'', ''pw2''} \<subseteq> {''pw1'', ''pw2'', ''email''}" by simp
  have small: "fst (node_visited gl {''pw1'', ''pw2''} w) = Inr True"
    by (simp add: node_visited_def ref_names_def gl_def w_def Node_init_def)
  from node_visited_monotone[OF sub small]
  have "fst (node_visited gl {''pw1'', ''pw2'', ''email''} w) = Inr True" by simp
  then show ?thesis unfolding w_def gl_def .
qed

end
